theory Spec2Isabelle
  imports Main
begin

section \<open>JavaScript values\<close>

text \<open>
  Values of the program: JSON data received from callers and from the backend, the
  value \<open>undefined\<close>, and a reference to a built-in method (the only one the program
  can read is \<open>Array.prototype.filter\<close>, through \<open>bool.filter\<close> on an array).
  Strings are lists of code units; the development works on code units below 256.
  Numbers are kept as integers: the program compares and copies them, nothing more.
\<close>

datatype jsval =
    JUndefined
  | JNull
  | JBool bool
  | JNum int
  | JStr string
  | JArr "jsval list"
  | JObj "(string \<times> jsval) list"
  | JBuiltin string

section \<open>Character classes of the regular expressions\<close>

definition is_digit :: "char \<Rightarrow> bool" where
  "is_digit c = (48 \<le> (of_char c :: nat) \<and> (of_char c :: nat) \<le> 57)"

definition is_upper :: "char \<Rightarrow> bool" where
  "is_upper c = (65 \<le> (of_char c :: nat) \<and> (of_char c :: nat) \<le> 90)"

definition is_lower :: "char \<Rightarrow> bool" where
  "is_lower c = (97 \<le> (of_char c :: nat) \<and> (of_char c :: nat) \<le> 122)"

definition is_alpha :: "char \<Rightarrow> bool" where
  "is_alpha c = (is_upper c \<or> is_lower c)"

text \<open>\<open>\w\<close> is \<open>[A-Za-z0-9_]\<close>; \<open>\s\<close> on code units below 256 is tab, line feed,
  vertical tab, form feed, carriage return, space and the no-break space.\<close>

definition is_word :: "char \<Rightarrow> bool" where
  "is_word c = (is_alpha c \<or> is_digit c \<or> c = CHR ''_'')"

definition is_space :: "char \<Rightarrow> bool" where
  "is_space c = ((of_char c :: nat) \<in> {9, 10, 11, 12, 13, 32, 160})"

section \<open>The regular expressions of the program\<close>

text \<open>
  Every regular expression of the program is a sequence of character classes under a
  greedy bounded quantifier and of word-boundary assertions. \<open>Cls P lo hi\<close> is the class
  \<open>P\<close> repeated \<open>lo\<close> to \<open>hi\<close> times (\<open>None\<close>: no upper bound); \<open>WordB\<close> is \<open>\b\<close>.
\<close>

datatype item = Cls "char \<Rightarrow> bool" nat "nat option" | WordB

fun is_word_at :: "char option \<Rightarrow> bool" where
  "is_word_at None = False"
| "is_word_at (Some c) = is_word c"

fun next_char :: "string \<Rightarrow> char option" where
  "next_char [] = None"
| "next_char (c # cs) = Some c"

text \<open>
  \<open>rmatch items prev s\<close> matches the items at the front of \<open>s\<close>, where \<open>prev\<close> is the code
  unit before the position, and returns the number of code units of the match. A greedy
  quantifier first takes one more repetition and falls back to stopping only when the
  rest of the expression fails after it, as a backtracking matcher does.
\<close>

fun rmatch :: "item list \<Rightarrow> char option \<Rightarrow> string \<Rightarrow> nat option" where
  "rmatch [] prev s = Some 0"
| "rmatch (WordB # its) prev s =
     (if is_word_at prev \<noteq> is_word_at (next_char s) then rmatch its prev s else None)"
| "rmatch (Cls P lo hi # its) prev [] = (if lo = 0 then rmatch its prev [] else None)"
| "rmatch (Cls P lo hi # its) prev (c # cs) =
     (if P c \<and> hi \<noteq> Some 0 then
        (case rmatch (Cls P (lo - 1) (map_option (\<lambda>h. h - 1) hi) # its) (Some c) cs of
           Some n \<Rightarrow> Some (Suc n)
         | None \<Rightarrow> if lo = 0 then rmatch its prev (c # cs) else None)
      else if lo = 0 then rmatch its prev (c # cs) else None)"

text \<open>
  \<open>String.prototype.replace\<close> with a global regular expression and a callback: the
  matches are found left to right without overlap, the callback gives the replacement of
  each and may change a state (here the counter and the set of categories). An empty
  match inserts its replacement and moves one code unit on.
\<close>

function js_replace ::
  "item list \<Rightarrow> (string \<Rightarrow> 'st \<Rightarrow> string \<times> 'st) \<Rightarrow> char option \<Rightarrow> string \<Rightarrow> 'st \<Rightarrow> string \<times> 'st"
where
  "js_replace re cb prev [] st =
     (case rmatch re prev [] of None \<Rightarrow> ([], st) | Some n \<Rightarrow> cb [] st)"
| "js_replace re cb prev (c # cs) st =
     (case rmatch re prev (c # cs) of
        None \<Rightarrow> (let (r, st') = js_replace re cb (Some c) cs st in (c # r, st'))
      | Some 0 \<Rightarrow>
          (let (m', st1) = cb [] st;
               (r, st2) = js_replace re cb (Some c) cs st1
           in (m' @ c # r, st2))
      | Some (Suc k) \<Rightarrow>
          (let m = take (Suc k) (c # cs);
               (m', st1) = cb m st;
               (r, st2) = js_replace re cb (Some (last m)) (drop k cs) st1
           in (m' @ r, st2)))"
  by pat_completeness auto
termination
  by (relation "measure (\<lambda>(re, cb, prev, s, st). length s)") auto

section \<open>PII redaction (piiRedaction.ts)\<close>

definition digit_val :: "char \<Rightarrow> nat" where
  "digit_val c = of_char c - 48"

text \<open>The loop of \<open>luhnCheck\<close> runs from the last digit to the first.\<close>

fun luhn_loop :: "string \<Rightarrow> bool \<Rightarrow> nat \<Rightarrow> nat" where
  "luhn_loop [] alternate acc = acc"
| "luhn_loop (d # ds) alternate acc =
     (let n = digit_val d;
          n = (if alternate then (if n * 2 > 9 then n * 2 - 9 else n * 2) else n)
      in luhn_loop ds (\<not> alternate) (acc + n))"

definition luhnCheck :: "string \<Rightarrow> bool" where
  "luhnCheck num = (let digits = filter is_digit num in luhn_loop (rev digits) False 0 mod 10 = 0)"

record RedactionPattern =
  name :: string
  regex :: "item list"
  maskf :: "string \<Rightarrow> string"

text \<open>\<open>s.slice(-n)\<close>: the last \<open>n\<close> code units, the whole string when it is shorter.\<close>

definition slice_last :: "nat \<Rightarrow> string \<Rightarrow> string" where
  "slice_last n s = drop (length s - n) s"

text \<open>The class \<open>[\s-]\<close> of the card pattern.\<close>

definition card_sep :: "char \<Rightarrow> bool" where
  "card_sep c = (is_space c \<or> c = CHR ''-'')"

definition credit_card_regex :: "item list" where
  "credit_card_regex =
     [WordB,
      Cls is_digit 4 (Some 4), Cls card_sep 0 (Some 1),
      Cls is_digit 4 (Some 4), Cls card_sep 0 (Some 1),
      Cls is_digit 4 (Some 4), Cls card_sep 0 (Some 1),
      Cls is_digit 4 (Some 4),
      WordB]"

definition credit_card_mask :: "string \<Rightarrow> string" where
  "credit_card_mask match =
     (let digits = filter is_digit match in
      if length digits \<noteq> 16 \<or> \<not> luhnCheck digits then match
      else
        let last4 = slice_last 4 digits;
            sep = (if CHR ''-'' \<in> set match then ''-''
                   else if CHR '' '' \<in> set match then '' '' else [])
        in ''****'' @ sep @ ''****'' @ sep @ ''****'' @ sep @ last4)"

definition iban_regex :: "item list" where
  "iban_regex =
     [WordB,
      Cls is_upper 2 (Some 2), Cls is_digit 2 (Some 2),
      Cls (\<lambda>c. is_upper c \<or> is_digit c) 4 (Some 30),
      WordB]"

definition iban_mask :: "string \<Rightarrow> string" where
  "iban_mask match =
     (if length match < 15 then match
      else take 4 match @ ''****'' @ slice_last 4 match)"

definition ssn_regex :: "item list" where
  "ssn_regex =
     [WordB,
      Cls is_digit 3 (Some 3), Cls (\<lambda>c. c = CHR ''-'') 1 (Some 1),
      Cls is_digit 2 (Some 2), Cls (\<lambda>c. c = CHR ''-'') 1 (Some 1),
      Cls is_digit 4 (Some 4),
      WordB]"

definition ssn_mask :: "string \<Rightarrow> string" where
  "ssn_mask match = ''***-**-****''"

definition email_regex :: "item list" where
  "email_regex =
     [WordB,
      Cls (\<lambda>c. is_alpha c \<or> is_digit c \<or> c \<in> set ''._%+-'') 1 None,
      Cls (\<lambda>c. c = CHR ''@'') 1 (Some 1),
      Cls (\<lambda>c. is_alpha c \<or> is_digit c \<or> c \<in> set ''.-'') 1 None,
      Cls (\<lambda>c. c = CHR ''.'') 1 (Some 1),
      Cls is_alpha 2 None,
      WordB]"

text \<open>
  \<open>const [local, domain] = match.split('@')\<close>: the first two pieces. A missing piece is
  \<open>undefined\<close>, and so is \<open>local[0]\<close> of an empty piece; the template prints both as the
  text \<open>undefined\<close>.
\<close>

definition email_mask :: "string \<Rightarrow> string" where
  "email_mask match =
     (let local = takeWhile (\<lambda>c. c \<noteq> CHR ''@'') match;
          domain = (case dropWhile (\<lambda>c. c \<noteq> CHR ''@'') match of
                      [] \<Rightarrow> ''undefined''
                    | at # rest \<Rightarrow> takeWhile (\<lambda>c. c \<noteq> CHR ''@'') rest);
          local0 = (case local of [] \<Rightarrow> ''undefined'' | c # cs \<Rightarrow> [c])
      in local0 @ ''***@'' @ domain)"

definition phone_regex :: "item list" where
  "phone_regex =
     [Cls (\<lambda>c. c = CHR ''+'') 1 (Some 1),
      Cls is_digit 1 (Some 3), Cls (\<lambda>c. is_space c \<or> c \<in> set ''.-'') 0 (Some 1),
      Cls is_digit 1 (Some 1), Cls (\<lambda>c. is_space c \<or> c \<in> set ''.-'') 0 (Some 1),
      Cls is_digit 3 (Some 4), Cls (\<lambda>c. is_space c \<or> c \<in> set ''.-'') 0 (Some 1),
      Cls is_digit 3 (Some 4),
      WordB]"

definition phone_mask :: "string \<Rightarrow> string" where
  "phone_mask match =
     (let digits = filter is_digit match in
      if length digits < 8 then match
      else ''+'' @ take 2 digits @ ''***'' @ slice_last 2 digits)"

definition PATTERNS :: "RedactionPattern list" where
  "PATTERNS =
     [\<lparr>name = ''credit_card'', regex = credit_card_regex, maskf = credit_card_mask\<rparr>,
      \<lparr>name = ''iban'', regex = iban_regex, maskf = iban_mask\<rparr>,
      \<lparr>name = ''ssn'', regex = ssn_regex, maskf = ssn_mask\<rparr>,
      \<lparr>name = ''email'', regex = email_regex, maskf = email_mask\<rparr>,
      \<lparr>name = ''phone'', regex = phone_regex, maskf = phone_mask\<rparr>]"

text \<open>A JavaScript \<open>Set\<close> of strings in insertion order.\<close>

definition set_add :: "string list \<Rightarrow> string \<Rightarrow> string list" where
  "set_add xs x = (if x \<in> set xs then xs else xs @ [x])"

text \<open>The callback of \<open>redactString\<close>; its state is \<open>count\<close> and \<open>typesFound\<close>.\<close>

definition redact_callback ::
  "RedactionPattern \<Rightarrow> string \<Rightarrow> nat \<times> string list \<Rightarrow> string \<times> (nat \<times> string list)" where
  "redact_callback pattern match st =
     (let masked = maskf pattern match in
      if masked \<noteq> match then (masked, (fst st + 1, set_add (snd st) (name pattern)))
      else (masked, st))"

fun redact_patterns ::
  "RedactionPattern list \<Rightarrow> string \<Rightarrow> nat \<times> string list \<Rightarrow> string \<times> (nat \<times> string list)" where
  "redact_patterns [] result st = (result, st)"
| "redact_patterns (pattern # ps) result st =
     (let (result', st') = js_replace (regex pattern) (redact_callback pattern) None result st
      in redact_patterns ps result' st')"

text \<open>\<open>redactString value typesFound\<close> returns \<open>result\<close>, \<open>count\<close> and the updated set.\<close>

definition redactString :: "string \<Rightarrow> string list \<Rightarrow> string \<times> nat \<times> string list" where
  "redactString v typesFound = redact_patterns PATTERNS v (0, typesFound)"

text \<open>
  \<open>redactRecursive\<close>: strings are scanned, arrays are mapped element by element, objects
  entry by entry in the order of \<open>Object.entries\<close> (an object is the list of its entries,
  with distinct keys); every other value passes through. The assignment
  \<open>result[key] = r\<close> creates no property when the key is \<open>__proto__\<close>.
\<close>

fun redactRecursive :: "jsval \<Rightarrow> string list \<Rightarrow> jsval \<times> nat \<times> string list"
  and redact_items :: "jsval list \<Rightarrow> string list \<Rightarrow> jsval list \<times> nat \<times> string list"
  and redact_entries ::
    "(string \<times> jsval) list \<Rightarrow> string list \<Rightarrow> (string \<times> jsval) list \<times> nat \<times> string list"
where
  "redactRecursive (JStr s) typesFound =
     (let (r, count, ts) = redactString s typesFound in (JStr r, count, ts))"
| "redactRecursive (JArr xs) typesFound =
     (let (rs, totalCount, ts) = redact_items xs typesFound in (JArr rs, totalCount, ts))"
| "redactRecursive (JObj kvs) typesFound =
     (let (rs, totalCount, ts) = redact_entries kvs typesFound in (JObj rs, totalCount, ts))"
| "redactRecursive JUndefined typesFound = (JUndefined, 0, typesFound)"
| "redactRecursive JNull typesFound = (JNull, 0, typesFound)"
| "redactRecursive (JBool b) typesFound = (JBool b, 0, typesFound)"
| "redactRecursive (JNum n) typesFound = (JNum n, 0, typesFound)"
| "redactRecursive (JBuiltin f) typesFound = (JBuiltin f, 0, typesFound)"
| "redact_items [] typesFound = ([], 0, typesFound)"
| "redact_items (item # items) typesFound =
     (let (r, count, ts1) = redactRecursive item typesFound;
          (rs, totalCount, ts2) = redact_items items ts1
      in (r # rs, count + totalCount, ts2))"
| "redact_entries [] typesFound = ([], 0, typesFound)"
| "redact_entries ((key, v) # kvs) typesFound =
     (let (r, count, ts1) = redactRecursive v typesFound;
          (rs, totalCount, ts2) = redact_entries kvs ts1
      in ((if key = ''__proto__'' then rs else (key, r) # rs), count + totalCount, ts2))"

record RedactionResult =
  redactedData :: jsval
  redactionCount :: nat
  redactedTypes :: "string list"

definition redactPII :: "jsval \<Rightarrow> RedactionResult" where
  "redactPII data_in =
     (let (result, count, ts) = redactRecursive data_in []
      in \<lparr>redactedData = result, redactionCount = count, redactedTypes = ts\<rparr>)"

section \<open>Property access\<close>

text \<open>
  \<open>get_prop v k\<close> is \<open>v.k\<close>: \<open>None\<close> stands for the TypeError of reading a property of
  \<open>undefined\<close> or \<open>null\<close>. The program reads the keys \<open>response\<close>, \<open>data\<close>, \<open>error\<close>,
  \<open>reason\<close>, \<open>message\<close>, \<open>type\<close>, \<open>query\<close>, \<open>bool\<close> and \<open>filter\<close>; among them only
  \<open>filter\<close> names a built-in property, of arrays. \<open>opt_prop v k\<close> is \<open>v?.k\<close>.
\<close>

definition get_prop :: "jsval \<Rightarrow> string \<Rightarrow> jsval option" where
  "get_prop v k =
     (case v of
        JUndefined \<Rightarrow> None
      | JNull \<Rightarrow> None
      | JObj kvs \<Rightarrow> Some (case map_of kvs k of None \<Rightarrow> JUndefined | Some x \<Rightarrow> x)
      | JArr xs \<Rightarrow>
          Some (if k = ''filter'' then JBuiltin ''Array.prototype.filter'' else JUndefined)
      | _ \<Rightarrow> Some JUndefined)"

definition opt_prop :: "jsval \<Rightarrow> string \<Rightarrow> jsval" where
  "opt_prop v k = (case get_prop v k of None \<Rightarrow> JUndefined | Some x \<Rightarrow> x)"

fun truthy :: "jsval \<Rightarrow> bool" where
  "truthy JUndefined = False"
| "truthy JNull = False"
| "truthy (JBool b) = b"
| "truthy (JNum n) = (n \<noteq> 0)"
| "truthy (JStr s) = (s \<noteq> [])"
| "truthy (JArr xs) = True"
| "truthy (JObj kvs) = True"
| "truthy (JBuiltin f) = True"

definition js_or :: "jsval \<Rightarrow> jsval \<Rightarrow> jsval" where
  "js_or a b = (if truthy a then a else b)"

section \<open>Configuration (config.ts)\<close>

record ServerConfig =
  allowedIndexPatterns :: "string list"
  maxSearchSize :: int
  retryAttempts :: int
  retryDelayMs :: int
  auditEnabled :: bool
  piiRedactionEnabled :: bool


section \<open>Audit logger (auditLogger.ts)\<close>

record AuditEntry =
  timestamp :: string
  tool_called :: string
  input_parameters :: string
  output_size_bytes :: nat
  redaction_count :: nat
  redacted_types :: "string list"
  execution_time_ms :: int
  status :: string
  error_message :: jsval

definition MAX_INPUT_LOG_LENGTH :: nat where
  "MAX_INPUT_LOG_LENGTH = 500"

text \<open>
  \<open>AuditLogger.log\<close>: the sink is the list of records written to stderr, each as one
  JSON line; \<open>enabled\<close> is \<open>config.auditEnabled\<close>.
\<close>

definition sanitize_entry :: "AuditEntry \<Rightarrow> AuditEntry" where
  "sanitize_entry entry =
     entry\<lparr>input_parameters :=
       (if length (input_parameters entry) > MAX_INPUT_LOG_LENGTH
        then take MAX_INPUT_LOG_LENGTH (input_parameters entry) @ ''...[truncated]''
        else input_parameters entry)\<rparr>"

definition auditLogger_log :: "bool \<Rightarrow> AuditEntry \<Rightarrow> AuditEntry list \<Rightarrow> AuditEntry list" where
  "auditLogger_log enabled entry stderr =
     (if \<not> enabled then stderr else stderr @ [sanitize_entry entry])"

section \<open>The secure tool wrapper (toolWrapper.ts)\<close>

text \<open>
  \<open>ToolResult\<close>: \<open>{type: 'success', data, total?, aggregations?}\<close> or
  \<open>{type: 'error', error}\<close>. \<open>result_js\<close> is the object itself, its keys in the order in
  which the tools write them.
\<close>

datatype ToolResult =
    ToolSuccess jsval "jsval option" "jsval option"
  | ToolError jsval

fun result_js :: "ToolResult \<Rightarrow> jsval" where
  "result_js (ToolSuccess d tot aggregations) =
     JObj ([(''type'', JStr ''success''), (''data'', d)]
           @ (case tot of None \<Rightarrow> [] | Some t \<Rightarrow> [(''total'', t)])
           @ (case aggregations of None \<Rightarrow> [] | Some a \<Rightarrow> [(''aggregations'', a)]))"
| "result_js (ToolError e) = JObj [(''type'', JStr ''error''), (''error'', e)]"

text \<open>
  What escapes from \<open>execute\<close>: the TypeError of reading a property of \<open>undefined\<close> or
  \<open>null\<close>, and the failure of \<open>match\<close> on a value whose \<open>type\<close> has no handler (the
  matching library is not part of the sources; it is taken to raise there).
\<close>

datatype uncaught = TypeError | MatchError

text \<open>
  The catch block: \<open>error.response?.data?.error?.reason || error.response?.data?.message
  || error.message || 'Unknown error'\<close>. The first member access, \<open>error.response\<close>,
  is not optional.
\<close>

definition catch_message :: "jsval \<Rightarrow> jsval option" where
  "catch_message error =
     (case get_prop error ''response'' of
        None \<Rightarrow> None
      | Some response \<Rightarrow>
          Some (js_or (opt_prop (opt_prop (opt_prop response ''data'') ''error'') ''reason'')
               (js_or (opt_prop (opt_prop response ''data'') ''message'')
               (js_or (opt_prop error ''message'')
                      (JStr ''Unknown error'')))))"

text \<open>The try block and its catch: the logic either returns a result or throws a value.\<close>

definition run_logic :: "(jsval \<Rightarrow> jsval + ToolResult) \<Rightarrow> jsval \<Rightarrow> ToolResult option" where
  "run_logic logic input =
     (case logic input of
        Inr r \<Rightarrow> Some r
      | Inl error \<Rightarrow> map_option ToolError (catch_message error))"

text \<open>The first \<open>match\<close>: \<open>finalResult\<close>, \<open>redactionCount\<close>, \<open>redactedTypes\<close>.\<close>

definition redaction_step :: "ServerConfig \<Rightarrow> ToolResult \<Rightarrow> jsval \<times> nat \<times> string list" where
  "redaction_step config result =
     (case result of
        ToolSuccess d tot aggregations \<Rightarrow>
          if \<not> piiRedactionEnabled config then (result_js result, 0, [])
          else
            let redaction = redactPII (result_js result)
            in (redactedData redaction, redactionCount redaction, redactedTypes redaction)
      | ToolError e \<Rightarrow> (result_js result, 0, []))"

text \<open>The second \<open>match\<close>, on \<open>finalResult\<close>: \<open>status\<close> and \<open>error_message\<close>.\<close>

definition audit_fields :: "jsval \<Rightarrow> (string \<times> jsval) option" where
  "audit_fields finalResult =
     (case opt_prop finalResult ''type'' of
        JStr t \<Rightarrow>
          if t = ''success'' then Some (''success'', JUndefined)
          else if t = ''error'' then Some (''error'', opt_prop finalResult ''error'')
          else None
      | _ \<Rightarrow> None)"

text \<open>
  \<open>execute\<close> of a tool made by \<open>createSecureTool\<close>. \<open>stringify\<close> is \<open>JSON.stringify\<close>,
  \<open>startTime\<close> and \<open>endTime\<close> are the two readings of \<open>Date.now()\<close>, \<open>isoNow\<close> is
  \<open>new Date().toISOString()\<close>; \<open>stderr\<close> is the audit sink before the call.
\<close>

definition execute ::
  "ServerConfig \<Rightarrow> (jsval \<Rightarrow> string) \<Rightarrow> string \<Rightarrow> int \<Rightarrow> int \<Rightarrow> string \<Rightarrow>
   (jsval \<Rightarrow> jsval + ToolResult) \<Rightarrow> jsval \<Rightarrow> AuditEntry list \<Rightarrow>
   (uncaught + jsval) \<times> AuditEntry list" where
  "execute config stringify tool_id startTime endTime isoNow logic input stderr =
     (case run_logic logic input of
        None \<Rightarrow> (Inl TypeError, stderr)
      | Some result \<Rightarrow>
          let (finalResult, redactionCount, redactedTypes) = redaction_step config result;
              executionTime = endTime - startTime
          in case audit_fields finalResult of
               None \<Rightarrow> (Inl MatchError, stderr)
             | Some (st, msg) \<Rightarrow>
                 (Inr finalResult,
                  auditLogger_log (auditEnabled config)
                    \<lparr>timestamp = isoNow,
                     tool_called = tool_id,
                     input_parameters = stringify input,
                     output_size_bytes = length (stringify finalResult),
                     redaction_count = redactionCount,
                     redacted_types = redactedTypes,
                     execution_time_ms = executionTime,
                     status = st,
                     error_message = msg\<rparr>
                    stderr))"

section \<open>Input sanitizer (inputSanitizer.ts)\<close>





section \<open>Elasticsearch client (esClient.ts)\<close>

subsection \<open>globMatch\<close>











subsection \<open>withRetry\<close>

text \<open>
  The rejection of an HTTP call: \<open>error.response\<close> (its \<open>status\<close> and \<open>data\<close>) is present when
  the backend answered, absent for a network failure or a timeout.
\<close>

datatype AxiosError = AxiosError "(int \<times> jsval) option" string

fun error_status :: "AxiosError \<Rightarrow> int option" where
  "error_status (AxiosError None msg) = None"
| "error_status (AxiosError (Some (st, d)) msg) = Some st"

fun axios_js :: "AxiosError \<Rightarrow> jsval" where
  "axios_js (AxiosError None msg) = JObj [(''message'', JStr msg)]"
| "axios_js (AxiosError (Some (st, d)) msg) =
     JObj [(''message'', JStr msg),
           (''response'', JObj [(''status'', JNum st), (''data'', d)])]"

text \<open>\<open>status && status >= 400 && status < 500 && status !== 429\<close>\<close>

definition client_error :: "int option \<Rightarrow> bool" where
  "client_error st =
     (case st of None \<Rightarrow> False | Some n \<Rightarrow> n \<noteq> 0 \<and> n \<ge> 400 \<and> n < 500 \<and> n \<noteq> 429)"

record 'a retry_result =
  outcome :: "jsval + 'a"
  calls :: nat
  sleeps :: "int list"

text \<open>
  The loop of \<open>withRetry\<close>. \<open>fn k\<close> is what the \<open>k\<close>-th call of \<open>fn\<close> does (counted from 0):
  it rejects with an error or resolves with a value. \<open>lastError\<close> is \<open>undefined\<close> until a
  call has failed. The result holds the value returned or thrown, the number of calls
  of \<open>fn\<close> and the delays slept, in order.
\<close>

function withRetry_loop ::
  "ServerConfig \<Rightarrow> (nat \<Rightarrow> AxiosError + 'a) \<Rightarrow> nat \<Rightarrow> AxiosError option \<Rightarrow> int list \<Rightarrow>
   'a retry_result" where
  "withRetry_loop config fn attempt lastError slept =
     (if int attempt < retryAttempts config then
        (case fn attempt of
           Inr v \<Rightarrow> \<lparr>outcome = Inr v, calls = Suc attempt, sleeps = slept\<rparr>
         | Inl error \<Rightarrow>
             if client_error (error_status error)
             then \<lparr>outcome = Inl (axios_js error), calls = Suc attempt, sleeps = slept\<rparr>
             else
               withRetry_loop config fn (Suc attempt) (Some error)
                 (if int attempt < retryAttempts config - 1
                  then slept @ [retryDelayMs config * 2 ^ attempt]
                  else slept))
      else \<lparr>outcome = Inl (case lastError of None \<Rightarrow> JUndefined | Some e \<Rightarrow> axios_js e),
            calls = attempt, sleeps = slept\<rparr>)"
  by pat_completeness auto
termination
  by (relation "measure (\<lambda>(config, fn, attempt, lastError, slept).
        nat (retryAttempts config - int attempt))") auto

declare withRetry_loop.simps [simp del]

definition withRetry :: "ServerConfig \<Rightarrow> (nat \<Rightarrow> AxiosError + 'a) \<Rightarrow> 'a retry_result" where
  "withRetry config fn = withRetry_loop config fn 0 None []"

subsection \<open>The operations of the client\<close>


text \<open>\<open>{...obj, key: v}\<close>: an existing key keeps its place and takes the new value, a new
  key goes last.\<close>

fun obj_set :: "(string \<times> jsval) list \<Rightarrow> string \<Rightarrow> jsval \<Rightarrow> (string \<times> jsval) list" where
  "obj_set [] k v = [(k, v)]"
| "obj_set ((k', v') # kvs) k v =
     (if k' = k then (k, v) # kvs else (k', v') # obj_set kvs k v)"





section \<open>kibana_search: the time-range merge (tools/kibanaSearch.ts)\<close>

text \<open>An object is handled as the list of its entries.\<close>

datatype QueryShape =
    has_bool jsval "(string \<times> jsval) list"
  | has_query jsval "(string \<times> jsval) list"
  | no_query "(string \<times> jsval) list"

definition classifyQuery :: "(string \<times> jsval) list \<Rightarrow> QueryShape" where
  "classifyQuery body =
     (if truthy (opt_prop (opt_prop (JObj body) ''query'') ''bool'')
      then has_bool (opt_prop (opt_prop (JObj body) ''query'') ''bool'') body
      else if truthy (opt_prop (JObj body) ''query'')
      then has_query (opt_prop (JObj body) ''query'') body
      else no_query body)"

definition rangeFilter :: "string \<Rightarrow> jsval" where
  "rangeFilter time_range =
     JObj [(''range'',
            JObj [(''@timestamp'', JObj [(''gte'', JStr time_range), (''lte'', JStr ''now'')])])]"

text \<open>The decimal numeral of an array index, as a property key.\<close>

function show_nat :: "nat \<Rightarrow> string" where
  "show_nat n =
     (if n < 10 then [char_of (48 + n)] else show_nat (n div 10) @ [char_of (48 + n mod 10)])"
  by pat_completeness auto
termination
  by (relation "measure id") auto

declare show_nat.simps [simp del]

text \<open>
  \<open>{...v}\<close>: the own enumerable properties of \<open>v\<close>. An array and a string spread into
  their indexed elements; a number, a boolean and a function have none.
\<close>

definition spread :: "jsval \<Rightarrow> (string \<times> jsval) list" where
  "spread v =
     (case v of
        JObj kvs \<Rightarrow> kvs
      | JArr xs \<Rightarrow> map (\<lambda>i. (show_nat i, xs ! i)) [0..<length xs]
      | JStr cs \<Rightarrow> map (\<lambda>i. (show_nat i, JStr [cs ! i])) [0..<length cs]
      | _ \<Rightarrow> [])"

text \<open>\<open>Array.isArray(bool.filter) ? bool.filter : bool.filter ? [bool.filter] : []\<close>\<close>

definition existing_filters :: "jsval \<Rightarrow> jsval list" where
  "existing_filters bool_clause =
     (case opt_prop bool_clause ''filter'' of
        JArr xs \<Rightarrow> xs
      | f \<Rightarrow> if truthy f then [f] else [])"

fun merge_shape :: "jsval \<Rightarrow> QueryShape \<Rightarrow> (string \<times> jsval) list" where
  "merge_shape rf (has_bool bool_clause body) =
     obj_set body ''query''
       (JObj [(''bool'',
               JObj (obj_set (spread bool_clause) ''filter''
                       (JArr (existing_filters bool_clause @ [rf]))))])"
| "merge_shape rf (has_query q body) =
     obj_set body ''query''
       (JObj [(''bool'', JObj [(''must'', JArr [q]), (''filter'', JArr [rf])])])"
| "merge_shape rf (no_query body) =
     obj_set body ''query'' (JObj [(''bool'', JObj [(''filter'', JArr [rf])])])"

text \<open>
  \<open>searchBody\<close> of \<open>kibana_search\<close>: the copy of \<open>query\<close>, merged with the time range when
  \<open>time_range\<close> is given and not empty.
\<close>

definition mergeTimeRange :: "(string \<times> jsval) list \<Rightarrow> string option \<Rightarrow> (string \<times> jsval) list" where
  "mergeTimeRange query time_range =
     (case time_range of
        None \<Rightarrow> query
      | Some tr \<Rightarrow>
          if tr = [] then query
          else merge_shape (rangeFilter tr) (classifyQuery query))"

section \<open>list_indices and discover_cluster (tools/listIndices.ts, tools/discoverCluster.ts)\<close>

text \<open>A row of the \<open>_cat/indices\<close> answer, and of the data the tools return.\<close>

datatype IndexInfo = IndexInfo string string string string string

fun ii_index :: "IndexInfo \<Rightarrow> string" where
  "ii_index (IndexInfo i h s d z) = i"


fun info_js :: "IndexInfo \<Rightarrow> (string \<times> jsval) list" where
  "info_js (IndexInfo i h s d z) =
     [(''index'', JStr i), (''health'', JStr h), (''status'', JStr s),
      (''doc_count'', JStr d), (''store_size'', JStr z)]"










text \<open>The names of the indices in the data of a result of one of the two tools.\<close>

definition entry_index :: "jsval \<Rightarrow> string" where
  "entry_index v = (case opt_prop v ''index'' of JStr i \<Rightarrow> i | _ \<Rightarrow> [])"


section \<open>Notions used to state the properties of the redaction\<close>

text \<open>The number of mask characters of a string.\<close>

definition stars :: "string \<Rightarrow> nat" where
  "stars s = length (filter (\<lambda>c. c = CHR ''*'') s)"

text \<open>
  \<open>keeps_masks v w\<close>: \<open>w\<close> has the shape and the keys of \<open>v\<close>, the same values where \<open>v\<close>
  has no string, and at every string at least as many mask characters as \<open>v\<close> has
  there.
\<close>

fun keeps_masks :: "jsval \<Rightarrow> jsval \<Rightarrow> bool"
  and keeps_masks_list :: "jsval list \<Rightarrow> jsval list \<Rightarrow> bool"
  and keeps_masks_entries :: "(string \<times> jsval) list \<Rightarrow> (string \<times> jsval) list \<Rightarrow> bool"
where
  "keeps_masks (JStr s) w = (case w of JStr t \<Rightarrow> stars s \<le> stars t | _ \<Rightarrow> False)"
| "keeps_masks (JArr xs) w = (case w of JArr ys \<Rightarrow> keeps_masks_list xs ys | _ \<Rightarrow> False)"
| "keeps_masks (JObj kvs) w = (case w of JObj kws \<Rightarrow> keeps_masks_entries kvs kws | _ \<Rightarrow> False)"
| "keeps_masks JUndefined w = (w = JUndefined)"
| "keeps_masks JNull w = (w = JNull)"
| "keeps_masks (JBool b) w = (w = JBool b)"
| "keeps_masks (JNum n) w = (w = JNum n)"
| "keeps_masks (JBuiltin f) w = (w = JBuiltin f)"
| "keeps_masks_list [] ys = (ys = [])"
| "keeps_masks_list (x # xs) ys =
     (case ys of [] \<Rightarrow> False | y # ys' \<Rightarrow> keeps_masks x y \<and> keeps_masks_list xs ys')"
| "keeps_masks_entries [] kws = (kws = [])"
| "keeps_masks_entries ((k, v) # kvs) kws =
     (case kws of
        [] \<Rightarrow> False
      | (k', w) # kws' \<Rightarrow> k' = k \<and> keeps_masks v w \<and> keeps_masks_entries kvs kws')"

text \<open>No object of the value has the key \<open>__proto__\<close>.\<close>

fun proto_free :: "jsval \<Rightarrow> bool"
  and proto_free_list :: "jsval list \<Rightarrow> bool"
  and proto_free_entries :: "(string \<times> jsval) list \<Rightarrow> bool"
where
  "proto_free (JArr xs) = proto_free_list xs"
| "proto_free (JObj kvs) = proto_free_entries kvs"
| "proto_free (JStr s) = True"
| "proto_free JUndefined = True"
| "proto_free JNull = True"
| "proto_free (JBool b) = True"
| "proto_free (JNum n) = True"
| "proto_free (JBuiltin f) = True"
| "proto_free_list [] = True"
| "proto_free_list (x # xs) = (proto_free x \<and> proto_free_list xs)"
| "proto_free_entries [] = True"
| "proto_free_entries ((k, v) # kvs) =
     (k \<noteq> ''__proto__'' \<and> proto_free v \<and> proto_free_entries kvs)"




section \<open>Properties: retry\<close>

lemma withRetry_zero_attempts:
  "retryAttempts config \<le> 0 \<Longrightarrow>
   withRetry config fn = \<lparr>outcome = Inl JUndefined, calls = 0, sleeps = []\<rparr>"
  by (simp add: withRetry_def withRetry_loop.simps)

lemma withRetry_client_error_terminal:
  "0 < retryAttempts config \<Longrightarrow> fn 0 = Inl e \<Longrightarrow> client_error (error_status e) \<Longrightarrow>
   withRetry config fn = \<lparr>outcome = Inl (axios_js e), calls = 1, sleeps = []\<rparr>"
  by (simp add: withRetry_def withRetry_loop.simps)

text \<open>
  When every configured attempt fails with a failure that the loop retries, the
  failure of the last attempt is propagated, after as many calls as attempts.
\<close>

lemma withRetry_loop_exhausted:
  assumes "\<forall>k. attempt \<le> k \<and> int k < retryAttempts config \<longrightarrow>
             (\<exists>e. fn k = Inl e \<and> \<not> client_error (error_status e))"
    and "int attempt < retryAttempts config"
  shows "\<exists>e. fn (nat (retryAttempts config) - 1) = Inl e \<and>
             outcome (withRetry_loop config fn attempt lastError slept) = Inl (axios_js e) \<and>
             calls (withRetry_loop config fn attempt lastError slept) = nat (retryAttempts config)"
  using assms
proof (induction "nat (retryAttempts config) - attempt" arbitrary: attempt lastError slept)
  case 0
  then show ?case by simp
next
  case (Suc n)
  from Suc.prems obtain e where e: "fn attempt = Inl e" "\<not> client_error (error_status e)"
    by blast
  show ?case
  proof (cases "int (Suc attempt) < retryAttempts config")
    case True
    have "n = nat (retryAttempts config) - Suc attempt"
      using Suc.hyps(2) by simp
    moreover have "\<forall>k. Suc attempt \<le> k \<and> int k < retryAttempts config \<longrightarrow>
             (\<exists>e. fn k = Inl e \<and> \<not> client_error (error_status e))"
      using Suc.prems(1) by simp
    ultimately obtain e' where
      "fn (nat (retryAttempts config) - 1) = Inl e'"
      "outcome (withRetry_loop config fn (Suc attempt) (Some e)
          (if int attempt < retryAttempts config - 1
           then slept @ [retryDelayMs config * 2 ^ attempt] else slept)) = Inl (axios_js e')"
      "calls (withRetry_loop config fn (Suc attempt) (Some e)
          (if int attempt < retryAttempts config - 1
           then slept @ [retryDelayMs config * 2 ^ attempt] else slept)) = nat (retryAttempts config)"
      using Suc.hyps(1) True by blast
    then show ?thesis
      using e Suc.prems(2) by (subst (1 2) withRetry_loop.simps) simp
  next
    case False
    with Suc.prems(2) have last: "nat (retryAttempts config) - 1 = attempt"
      by simp
    show ?thesis
      using e Suc.prems(2) False last
      by (subst (1 2) withRetry_loop.simps, subst (1 2) withRetry_loop.simps) simp
  qed
qed

lemma withRetry_exhausted:
  assumes "0 < retryAttempts config"
    and "\<forall>k. int k < retryAttempts config \<longrightarrow>
             (\<exists>e. fn k = Inl e \<and> \<not> client_error (error_status e))"
  shows "\<exists>e. fn (nat (retryAttempts config) - 1) = Inl e \<and>
             outcome (withRetry config fn) = Inl (axios_js e) \<and>
             calls (withRetry config fn) = nat (retryAttempts config)"
  unfolding withRetry_def
  using withRetry_loop_exhausted [of 0 config fn None "[]"] assms by simp

text \<open>
  C1 (the code departs from the claim). The claim: a failure is retried only when it
  has no HTTP status or has status 429 or 503; every other 4xx or 5xx status ends the
  call at once. The loop ends at once only on a 4xx status other than 429: with three
  attempts configured, a call that fails with status 500 and then succeeds is called a
  second time, after one sleep of the base delay, and its value is returned.
\<close>

theorem withRetry_retries_status_500:
  "withRetry
     \<lparr>allowedIndexPatterns = [], maxSearchSize = 100, retryAttempts = 3, retryDelayMs = 1000,
      auditEnabled = True, piiRedactionEnabled = True\<rparr>
     (\<lambda>k. if k = 0 then Inl (AxiosError (Some (500, JNull)) ''Request failed with status code 500'')
          else Inr (JStr ''ok''))
   = \<lparr>outcome = Inr (JStr ''ok''), calls = 2, sleeps = [1000]\<rparr>"
  by (simp add: withRetry_def withRetry_loop.simps client_error_def)

section \<open>Properties: the wrapper\<close>

text \<open>
  What the wrapper does for a thrown value other than \<open>undefined\<close> and \<open>null\<close>, and
  after the try block has produced a result: the catch block picks the message in the
  order reason, message of the backend, message of the fault, fallback; the result is
  redacted when it is a success and redaction is enabled; one audit entry is handed to
  the logger, with the status and the error message of the final result.
\<close>

lemma redactString_success: "redactString ''success'' [] = (''success'', 0, [])"
  by code_simp

lemma catch_message_priority:
  assumes "error \<noteq> JUndefined" "error \<noteq> JNull"
  shows "\<exists>response. get_prop error ''response'' = Some response \<and>
           catch_message error =
             Some (if truthy (opt_prop (opt_prop (opt_prop response ''data'') ''error'') ''reason'')
                   then opt_prop (opt_prop (opt_prop response ''data'') ''error'') ''reason''
                   else if truthy (opt_prop (opt_prop response ''data'') ''message'')
                   then opt_prop (opt_prop response ''data'') ''message''
                   else if truthy (opt_prop error ''message'') then opt_prop error ''message''
                   else JStr ''Unknown error'')"
  using assms by (cases error) (simp_all add: catch_message_def get_prop_def js_or_def)

lemma redaction_step_type:
  "opt_prop (fst (redaction_step config result)) ''type'' =
     (case result of ToolSuccess d t a \<Rightarrow> JStr ''success'' | ToolError e \<Rightarrow> JStr ''error'')"
  by (cases result)
     (auto simp: redaction_step_def redactPII_def Let_def opt_prop_def get_prop_def
        redactString_success split: prod.splits)

lemma execute_after_outcome:
  assumes "run_logic logic input = Some result"
  shows "execute config stringify tool_id startTime endTime isoNow logic input stderr =
     (Inr (fst (redaction_step config result)),
      auditLogger_log (auditEnabled config)
        \<lparr>timestamp = isoNow, tool_called = tool_id, input_parameters = stringify input,
         output_size_bytes = length (stringify (fst (redaction_step config result))),
         redaction_count = fst (snd (redaction_step config result)),
         redacted_types = snd (snd (redaction_step config result)),
         execution_time_ms = endTime - startTime,
         status = (case result of ToolSuccess d t a \<Rightarrow> ''success'' | ToolError e \<Rightarrow> ''error''),
         error_message = (case result of ToolSuccess d t a \<Rightarrow> JUndefined | ToolError e \<Rightarrow> e)\<rparr>
        stderr)"
proof -
  have "audit_fields (fst (redaction_step config result)) =
          Some (case result of ToolSuccess d t a \<Rightarrow> ''success'' | ToolError e \<Rightarrow> ''error'',
                case result of ToolSuccess d t a \<Rightarrow> JUndefined | ToolError e \<Rightarrow> e)"
    using redaction_step_type [of config result]
    by (cases result)
       (auto simp: audit_fields_def redaction_step_def opt_prop_def get_prop_def)
  then show ?thesis
    using assms by (simp add: execute_def case_prod_beta Let_def)
qed

lemma execute_outcomes:
  "fst (execute config stringify tool_id startTime endTime isoNow logic input stderr) = Inl TypeError
   \<or> (\<exists>v. fst (execute config stringify tool_id startTime endTime isoNow logic input stderr) = Inr v)"
proof (cases "run_logic logic input")
  case None
  then show ?thesis by (simp add: execute_def)
next
  case (Some result)
  then show ?thesis by (simp add: execute_after_outcome)
qed

lemma redaction_step_disabled_or_failure:
  "\<not> piiRedactionEnabled config \<or> (\<exists>e. result = ToolError e) \<Longrightarrow>
   redaction_step config result = (result_js result, 0, [])"
  by (cases result) (auto simp: redaction_step_def)

text \<open>
  C3 (the code departs from the claim). The claim: every fault raised by the operation
  logic becomes a Failure outcome, and the caller never sees an uncaught fault. With no
  attempt configured (\<open>retryAttempts = 0\<close>) the retry loop makes no call and throws
  \<open>undefined\<close>; the catch block of the wrapper then reads \<open>error.response\<close> of \<open>undefined\<close>,
  and that TypeError leaves \<open>execute\<close>: no outcome is returned and the audit sink is
  unchanged.
\<close>

theorem execute_escapes_on_thrown_undefined:
  "outcome (withRetry (config\<lparr>retryAttempts := 0\<rparr>) fn) = Inl JUndefined \<and>
   execute (config\<lparr>retryAttempts := 0\<rparr>) stringify tool_id startTime endTime isoNow
     (\<lambda>input. case outcome (withRetry (config\<lparr>retryAttempts := 0\<rparr>) fn) of
                 Inl e \<Rightarrow> Inl e
               | Inr v \<Rightarrow> Inr (ToolSuccess v None None))
     input stderr
   = (Inl TypeError, stderr)"
  by (simp add: withRetry_def withRetry_loop.simps execute_def run_logic_def catch_message_def
        get_prop_def)

text \<open>
  C4 (the code departs from the claim). The claim: with auditing enabled, every
  invocation emits exactly one audit entry. When the logic throws \<open>undefined\<close> (or
  \<open>null\<close>), the invocation ends in the catch block, before the audit step: with auditing
  enabled and an empty sink, the sink is still empty afterwards.
\<close>

theorem execute_no_audit_on_thrown_undefined:
  "execute (config\<lparr>auditEnabled := True\<rparr>) stringify tool_id startTime endTime isoNow
     (\<lambda>input. Inl JUndefined) input [] = (Inl TypeError, []) \<and>
   execute (config\<lparr>auditEnabled := True\<rparr>) stringify tool_id startTime endTime isoNow
     (\<lambda>input. Inl JNull) input [] = (Inl TypeError, [])"
  by (simp add: execute_def run_logic_def catch_message_def get_prop_def)

section \<open>Properties: the audit logger\<close>

text \<open>
  C6, as the claim states it, fails: the logged \<open>input_parameters\<close> of an entry whose
  serialized input has 600 characters has 514 characters, more than 500.
\<close>

theorem audit_input_parameters_counterexample:
  "length (input_parameters (last (auditLogger_log True
      \<lparr>timestamp = ''2024-01-01T00:00:00.000Z'', tool_called = ''test_tool'',
       input_parameters = replicate 600 CHR ''x'', output_size_bytes = 100,
       redaction_count = 0, redacted_types = [], execution_time_ms = 50,
       status = ''success'', error_message = JUndefined\<rparr> []))) = 514"
  by (simp add: auditLogger_log_def sanitize_entry_def MAX_INPUT_LOG_LENGTH_def)

text \<open>
  C6 (amended). For every audit entry emitted, the logged \<open>input_parameters\<close> string is at
  most 514 characters long: a serialized input of at most 500 characters is logged as
  it is, a longer one is cut to its first 500 characters, followed by the 14
  characters of the marker \<open>...[truncated]\<close>.
\<close>

theorem audit_input_parameters_cap:
  "length (input_parameters (last (auditLogger_log True entry stderr))) \<le> 514 \<and>
   (if length (input_parameters entry) \<le> 500
    then input_parameters (last (auditLogger_log True entry stderr)) = input_parameters entry
    else length (input_parameters (last (auditLogger_log True entry stderr))) = 514 \<and>
         take 500 (input_parameters (last (auditLogger_log True entry stderr)))
           = take 500 (input_parameters entry) \<and>
         drop 500 (input_parameters (last (auditLogger_log True entry stderr)))
           = ''...[truncated]'')"
  by (simp add: auditLogger_log_def sanitize_entry_def MAX_INPUT_LOG_LENGTH_def)

section \<open>Properties: the time-range merge\<close>


lemma map_of_obj_set:
  "map_of (obj_set kvs k v) k' = (if k' = k then Some v else map_of kvs k')"
  by (induction kvs) auto

lemma keys_obj_set:
  "map fst (obj_set kvs k v) = (if k \<in> fst ` set kvs then map fst kvs else map fst kvs @ [k])"
  by (induction kvs) force+

lemma classifyQuery_has_bool:
  assumes "classifyQuery query = has_bool b body"
  shows "body = query" and "b = opt_prop (opt_prop (JObj query) ''query'') ''bool''"
    and "truthy b" and "''query'' \<in> fst ` set query"
proof -
  from assms show "body = query" and b: "b = opt_prop (opt_prop (JObj query) ''query'') ''bool''"
    by (auto simp: classifyQuery_def split: if_splits)
  from assms b show t: "truthy b"
    by (auto simp: classifyQuery_def split: if_splits)
  show "''query'' \<in> fst ` set query"
  proof (rule ccontr)
    assume "''query'' \<notin> fst ` set query"
    then have "map_of query ''query'' = None"
      by (simp add: map_of_eq_None_iff)
    then have "b = JUndefined"
      using b by (simp add: opt_prop_def get_prop_def)
    with t show False by simp
  qed
qed

text \<open>
  C5, as the claim states it, fails: a filter slot that holds the single value \<open>0\<close> is
  not normalized to a one-element list; the value is dropped, and the merged filter
  list holds the range filter alone.
\<close>

theorem merge_falsy_filter_counterexample:
  "classifyQuery [(''query'', JObj [(''bool'', JObj [(''filter'', JNum 0)])])]
     = has_bool (JObj [(''filter'', JNum 0)]) [(''query'', JObj [(''bool'', JObj [(''filter'', JNum 0)])])] \<and>
   mergeTimeRange [(''query'', JObj [(''bool'', JObj [(''filter'', JNum 0)])])] (Some ''now-24h'')
     = [(''query'', JObj [(''bool'', JObj [(''filter'', JArr [rangeFilter ''now-24h''])])])]"
  by (simp add: classifyQuery_def mergeTimeRange_def opt_prop_def get_prop_def existing_filters_def spread_def)

text \<open>
  C5 (amended). For every query body classified \<open>has_bool\<close>, merging a time bound gives
  the boolean clause a filter list that ends with exactly one new entry, the range
  filter, after the entries already there: the elements of an existing list; the
  single value of a slot that holds a truthy value that is not a list; nothing when
  the slot is absent or holds a falsy value (\<open>null\<close>, \<open>false\<close>, \<open>0\<close>, the empty string).
  The other keys of the boolean clause, every key of the body other than \<open>query\<close>, and
  the order of the body's keys are unchanged.
\<close>

theorem merge_has_bool:
  assumes "tr \<noteq> []" and "classifyQuery query = has_bool b body"
  shows "\<exists>newbool.
           map_of (mergeTimeRange query (Some tr)) ''query''
             = Some (JObj [(''bool'', JObj newbool)]) \<and>
           (\<forall>xs. opt_prop b ''filter'' = JArr xs \<longrightarrow>
                 map_of newbool ''filter'' = Some (JArr (xs @ [rangeFilter tr]))) \<and>
           ((\<forall>xs. opt_prop b ''filter'' \<noteq> JArr xs) \<and> truthy (opt_prop b ''filter'') \<longrightarrow>
                 map_of newbool ''filter''
                   = Some (JArr [opt_prop b ''filter'', rangeFilter tr])) \<and>
           (\<not> truthy (opt_prop b ''filter'') \<longrightarrow>
                 map_of newbool ''filter'' = Some (JArr [rangeFilter tr])) \<and>
           (\<forall>k. k \<noteq> ''filter'' \<longrightarrow> map_of newbool k = map_of (spread b) k) \<and>
           (\<forall>k. k \<noteq> ''query'' \<longrightarrow>
                 map_of (mergeTimeRange query (Some tr)) k = map_of query k) \<and>
           map fst (mergeTimeRange query (Some tr)) = map fst query"
proof -
  note c = classifyQuery_has_bool [OF assms(2)]
  let ?newbool = "obj_set (spread b) ''filter'' (JArr (existing_filters b @ [rangeFilter tr]))"
  have m: "mergeTimeRange query (Some tr)
             = obj_set query ''query'' (JObj [(''bool'', JObj ?newbool)])"
    using assms c(1) by (simp add: mergeTimeRange_def)
  have 1: "map_of (mergeTimeRange query (Some tr)) ''query'' = Some (JObj [(''bool'', JObj ?newbool)])"
    by (simp add: m map_of_obj_set)
  have 2: "\<forall>xs. opt_prop b ''filter'' = JArr xs \<longrightarrow>
                 map_of ?newbool ''filter'' = Some (JArr (xs @ [rangeFilter tr]))"
    by (simp add: map_of_obj_set existing_filters_def)
  have 3: "(\<forall>xs. opt_prop b ''filter'' \<noteq> JArr xs) \<and> truthy (opt_prop b ''filter'') \<longrightarrow>
                 map_of ?newbool ''filter'' = Some (JArr [opt_prop b ''filter'', rangeFilter tr])"
    by (cases "opt_prop b ''filter''") (simp_all add: map_of_obj_set existing_filters_def)
  have 4: "\<not> truthy (opt_prop b ''filter'') \<longrightarrow>
                 map_of ?newbool ''filter'' = Some (JArr [rangeFilter tr])"
    by (cases "opt_prop b ''filter''") (simp_all add: map_of_obj_set existing_filters_def)
  have 5: "\<forall>k. k \<noteq> ''filter'' \<longrightarrow> map_of ?newbool k = map_of (spread b) k"
    by (simp add: map_of_obj_set)
  have 6: "\<forall>k. k \<noteq> ''query'' \<longrightarrow> map_of (mergeTimeRange query (Some tr)) k = map_of query k"
    by (simp add: m map_of_obj_set)
  have 7: "map fst (mergeTimeRange query (Some tr)) = map fst query"
    using c(4) by (simp add: m keys_obj_set)
  from 1 2 3 4 5 6 7 show ?thesis by blast
qed

theorem merge_has_bool_witness:
  "''now-7d'' \<noteq> [] \<and>
   classifyQuery [(''query'', JObj [(''bool'', JObj [(''must'', JArr [JObj [(''term'', JObj [(''type'', JStr ''payment'')])]]),
                                                    (''filter'', JObj [(''term'', JObj [(''status'', JStr ''failed'')])])])]),
                  (''sort'', JArr [JStr ''@timestamp''])]
     = has_bool (JObj [(''must'', JArr [JObj [(''term'', JObj [(''type'', JStr ''payment'')])]]),
                       (''filter'', JObj [(''term'', JObj [(''status'', JStr ''failed'')])])])
         [(''query'', JObj [(''bool'', JObj [(''must'', JArr [JObj [(''term'', JObj [(''type'', JStr ''payment'')])]]),
                                                    (''filter'', JObj [(''term'', JObj [(''status'', JStr ''failed'')])])])]),
          (''sort'', JArr [JStr ''@timestamp''])] \<and>
   mergeTimeRange [(''query'', JObj [(''bool'', JObj [(''must'', JArr [JObj [(''term'', JObj [(''type'', JStr ''payment'')])]]),
                                                    (''filter'', JObj [(''term'', JObj [(''status'', JStr ''failed'')])])])]),
                  (''sort'', JArr [JStr ''@timestamp''])] (Some ''now-7d'')
     = [(''query'', JObj [(''bool'', JObj [(''must'', JArr [JObj [(''term'', JObj [(''type'', JStr ''payment'')])]]),
                                          (''filter'', JArr [JObj [(''term'', JObj [(''status'', JStr ''failed'')])],
                                                             rangeFilter ''now-7d''])])]),
        (''sort'', JArr [JStr ''@timestamp''])]"
  using merge_has_bool [of "''now-7d''"
      "[(''query'', JObj [(''bool'', JObj [(''must'', JArr [JObj [(''term'', JObj [(''type'', JStr ''payment'')])]]),
                                                    (''filter'', JObj [(''term'', JObj [(''status'', JStr ''failed'')])])])]),
                  (''sort'', JArr [JStr ''@timestamp''])]"
      "JObj [(''must'', JArr [JObj [(''term'', JObj [(''type'', JStr ''payment'')])]]),
                       (''filter'', JObj [(''term'', JObj [(''status'', JStr ''failed'')])])]"
      "[(''query'', JObj [(''bool'', JObj [(''must'', JArr [JObj [(''term'', JObj [(''type'', JStr ''payment'')])]]),
                                                    (''filter'', JObj [(''term'', JObj [(''status'', JStr ''failed'')])])])]),
          (''sort'', JArr [JStr ''@timestamp''])]"]
  by (simp add: classifyQuery_def mergeTimeRange_def opt_prop_def get_prop_def existing_filters_def spread_def)

section \<open>Properties: the allow-list\<close>











section \<open>Properties: listing and discovery\<close>






lemma entry_index_info [simp]: "entry_index (JObj (info_js idx @ extra)) = ii_index idx"
  by (cases idx) (simp add: entry_index_def opt_prop_def get_prop_def)

lemma entry_index_info' [simp]: "entry_index (JObj (info_js idx)) = ii_index idx"
  using entry_index_info [of idx "[]"] by simp




section \<open>Properties: the redaction engine\<close>

subsection \<open>What a match can contain\<close>

lemma rmatch_le_length: "rmatch its prev s = Some n \<Longrightarrow> n \<le> length s"
  by (induction its prev s arbitrary: n rule: rmatch.induct)
     (auto split: if_splits option.splits)


lemma rmatch_classes:
  "rmatch its prev s = Some n \<Longrightarrow> \<forall>c\<in>set (take n s). \<exists>P lo hi. Cls P lo hi \<in> set its \<and> P c"
proof (induction its prev s arbitrary: n rule: rmatch.induct)
  case (1 prev s)
  then show ?case by simp
next
  case (2 its prev s)
  then show ?case by (auto split: if_splits)
next
  case (3 Q lo' hi' its prev)
  then show ?case by (auto split: if_splits)
next
  case (4 Q lo' hi' its prev c cs)
  show ?case
  proof (cases "Q c \<and> hi' \<noteq> Some 0")
    case True
    show ?thesis
    proof (cases "rmatch (Cls Q (lo' - 1) (map_option (\<lambda>h. h - 1) hi') # its) (Some c) cs")
      case None
      with True "4.prems" have "lo' = 0" "rmatch its prev (c # cs) = Some n"
        by (auto split: if_splits)
      from "4.IH"(2) [OF True None this] show ?thesis by fastforce
    next
      case (Some n')
      with True "4.prems" have n: "n = Suc n'" by simp
      from "4.IH"(1) [OF True Some]
      have "\<forall>x\<in>set (take n' cs). \<exists>P lo hi. Cls P lo hi \<in> set (Cls Q lo' hi' # its) \<and> P x"
        by fastforce
      with True n show ?thesis by auto
    qed
  next
    case False
    with "4.prems" have "lo' = 0" "rmatch its prev (c # cs) = Some n"
      by (auto split: if_splits)
    from "4.IH"(3) [OF False this] show ?thesis by fastforce
  qed
qed


lemma stars_append [simp]: "stars (xs @ ys) = stars xs + stars ys"
  by (simp add: stars_def)

lemma stars_Cons: "stars (c # cs) = (if c = CHR ''*'' then 1 else 0) + stars cs"
  by (simp add: stars_def)

lemma stars_zero: "CHR ''*'' \<notin> set s \<Longrightarrow> stars s = 0"
  by (induction s) (auto simp: stars_def)

lemma rmatch_star_free:
  assumes "rmatch its prev s = Some n" and "\<forall>P lo hi. Cls P lo hi \<in> set its \<longrightarrow> \<not> P CHR ''*''"
  shows "CHR ''*'' \<notin> set (take n s)"
  using rmatch_classes [OF assms(1)] assms(2) by blast

lemma js_replace_keeps_stars:
  assumes "\<forall>P lo hi. Cls P lo hi \<in> set re \<longrightarrow> \<not> P CHR ''*''"
  shows "stars s \<le> stars (fst (js_replace re cb prev s st))"
proof (induction "length s" arbitrary: s prev st rule: less_induct)
  case less
  show ?case
  proof (cases s)
    case Nil
    then show ?thesis by (simp add: stars_def)
  next
    case (Cons c cs)
    show ?thesis
    proof (cases "rmatch re prev (c # cs)")
      case None
      obtain r st' where rec: "js_replace re cb (Some c) cs st = (r, st')"
        by (cases "js_replace re cb (Some c) cs st")
      have "stars cs \<le> stars r"
        using less [of cs "Some c" st] Cons rec by simp
      then show ?thesis
        using Cons None rec by (simp add: stars_Cons)
    next
      case (Some n)
      show ?thesis
      proof (cases n)
        case 0
        obtain m' st1 where cb: "cb [] st = (m', st1)"
          by (cases "cb [] st")
        obtain r st2 where rec: "js_replace re cb (Some c) cs st1 = (r, st2)"
          by (cases "js_replace re cb (Some c) cs st1")
        have "stars cs \<le> stars r"
          using less [of cs "Some c" st1] Cons rec by simp
        then show ?thesis
          using Cons Some 0 cb rec by (simp add: stars_Cons)
      next
        case (Suc k)
        let ?m = "take (Suc k) (c # cs)"
        obtain m' st1 where cb: "cb ?m st = (m', st1)"
          by (cases "cb ?m st")
        obtain r st2 where rec: "js_replace re cb (Some (last ?m)) (drop k cs) st1 = (r, st2)"
          by (cases "js_replace re cb (Some (last ?m)) (drop k cs) st1")
        have res: "js_replace re cb prev s st = (m' @ r, st2)"
          using Cons Some Suc cb rec by simp
        have "CHR ''*'' \<notin> set ?m"
          using rmatch_star_free [OF _ assms, of prev "c # cs" n] Some Suc by simp
        then have m0: "stars ?m = 0"
          by (rule stars_zero)
        have "s = ?m @ drop k cs"
          using Cons by simp
        then have "stars s = stars ?m + stars (drop k cs)"
          by (metis stars_append)
        also have "\<dots> = stars (drop k cs)"
          using m0 by simp
        also have "\<dots> \<le> stars (fst (js_replace re cb (Some (last ?m)) (drop k cs) st1))"
          using less [of "drop k cs"] Cons by simp
        also have "\<dots> \<le> stars (m' @ r)"
          using rec by simp
        finally show ?thesis
          using res by simp
      qed
    qed
  qed
qed

lemma PATTERNS_star_free:
  "p \<in> set PATTERNS \<Longrightarrow> \<forall>P lo hi. Cls P lo hi \<in> set (regex p) \<longrightarrow> \<not> P CHR ''*''"
  by (auto simp: PATTERNS_def credit_card_regex_def iban_regex_def ssn_regex_def
        email_regex_def phone_regex_def is_digit_def is_upper_def is_lower_def is_alpha_def
        is_space_def card_sep_def)

lemma redact_patterns_keeps_stars:
  "set ps \<subseteq> set PATTERNS \<Longrightarrow> stars s \<le> stars (fst (redact_patterns ps s st))"
proof (induction ps arbitrary: s st)
  case Nil
  then show ?case by simp
next
  case (Cons p ps)
  obtain r st' where r: "js_replace (regex p) (redact_callback p) None s st = (r, st')"
    by (cases "js_replace (regex p) (redact_callback p) None s st")
  have "stars s \<le> stars r"
    using js_replace_keeps_stars [OF PATTERNS_star_free, of p s "redact_callback p" None st]
      Cons.prems r by simp
  also have "\<dots> \<le> stars (fst (redact_patterns ps r st'))"
    using Cons.IH [of r st'] Cons.prems by simp
  finally show ?case
    using r by simp
qed

lemma redactString_keeps_stars: "stars s \<le> stars (fst (redactString s ts))"
  using redact_patterns_keeps_stars [of PATTERNS s "(0, ts)"] by (simp add: redactString_def)

lemma redactRecursive_proto_free:
  "proto_free (fst (redactRecursive v ts))"
  "proto_free_list (fst (redact_items xs ts))"
  "proto_free_entries (fst (redact_entries kvs ts))"
  by (induction v ts and xs ts and kvs ts rule: redactRecursive_redact_items_redact_entries.induct)
     (auto split: prod.splits)

lemma redactRecursive_keeps_masks:
  "proto_free v \<Longrightarrow> keeps_masks v (fst (redactRecursive v ts))"
  "proto_free_list xs \<Longrightarrow> keeps_masks_list xs (fst (redact_items xs ts))"
  "proto_free_entries kvs \<Longrightarrow> keeps_masks_entries kvs (fst (redact_entries kvs ts))"
proof (induction v ts and xs ts and kvs ts rule: redactRecursive_redact_items_redact_entries.induct)
  case (1 s typesFound)
  then show ?case
    using redactString_keeps_stars [of s typesFound] by (auto split: prod.splits)
qed (auto split: prod.splits)

lemma redactedData_redactPII: "redactedData (redactPII v) = fst (redactRecursive v [])"
  by (simp add: redactPII_def case_prod_beta)

subsection \<open>Running the redaction again\<close>

text \<open>
  C9, as the claim states it, fails: the first run masks the phone-like prefix of
  \<open>+1234-5678-9012-4111-1111-1111-1111\<close> and leaves the card number that follows, which
  the card pattern had passed over inside a longer sequence failing the checksum; the
  second run, on the redacted data, finds one more match, that card number, which is
  no mask character.
\<close>

theorem redact_again_counterexample:
  "redactedData (redactPII (JStr ''+1234-5678-9012-4111-1111-1111-1111''))
     = JStr ''+12***12-4111-1111-1111-1111'' \<and>
   redactPII (JStr ''+12***12-4111-1111-1111-1111'')
     = \<lparr>redactedData = JStr ''+12***12-****-****-****-1111'', redactionCount = 1,
        redactedTypes = [''credit_card'']\<rparr>"
  by code_simp

text \<open>
  C9 (amended). Running the redaction again on redacted data never un-masks: no
  pattern matches a mask character, so the second result has the shape and keys of the
  first, and each of its strings holds at least the mask characters that the string
  had after the first run. (The second run can still find matches that the first run
  left.)
\<close>

theorem redact_again_keeps_masks:
  "keeps_masks (redactedData (redactPII v)) (redactedData (redactPII (redactedData (redactPII v))))"
proof -
  have "proto_free (redactedData (redactPII v))"
    by (simp add: redactedData_redactPII redactRecursive_proto_free(1))
  then show ?thesis
    using redactRecursive_keeps_masks(1) [of "redactedData (redactPII v)" "[]"]
    by (simp add: redactedData_redactPII)
qed

theorem redact_again_keeps_masks_witness:
  "redactedData (redactPII (JObj [(''cc'', JStr ''4111 1111 1111 1111'')]))
     = JObj [(''cc'', JStr ''**** **** **** 1111'')] \<and>
   keeps_masks (JObj [(''cc'', JStr ''**** **** **** 1111'')])
     (redactedData (redactPII (JObj [(''cc'', JStr ''**** **** **** 1111'')])))"
proof -
  have 1: "redactedData (redactPII (JObj [(''cc'', JStr ''4111 1111 1111 1111'')]))
     = JObj [(''cc'', JStr ''**** **** **** 1111'')]"
    by code_simp
  show ?thesis
    using redact_again_keeps_masks [of "JObj [(''cc'', JStr ''4111 1111 1111 1111'')]"]
    by (simp add: 1)
qed

subsection \<open>Card numbers\<close>
























end
